theory Spec2Isabelle
  imports Main "HOL-Library.AList"
begin

section \<open>Wire values: the JSON document and the objects \<open>json.loads\<close> builds\<close>

text \<open>
  The body of a response is a byte string. \<open>json.loads\<close> first recognises the JSON
  text (the standard library's grammar, a parameter here: \<open>json_scanner\<close>) and then builds
  Python objects from the syntax tree, passing the text of every number literal that has a
  fraction or an exponent to the hook \<open>parse_float\<close>. The syntax tree keeps those
  literals as text, which is what the scanner hands to the hook.
\<close>

type_synonym bytes = string

datatype float_constant = NaN | Infinity | NegInfinity

datatype json =
    JNull
  | JBool bool
  | JInt int
  | JFloat string
  | JConstant float_constant
  | JString string
  | JArray "json list"
  | JObject "(string \<times> json) list"

text \<open>
  Python objects that can come out of \<open>json.loads(..., parse_float=str)\<close>. The only
  float objects left are the three constants \<open>NaN\<close>, \<open>Infinity\<close> and \<open>-Infinity\<close>,
  which go through \<open>parse_constant\<close> and not through \<open>parse_float\<close>. A dict is an
  association list with distinct keys in insertion order.
\<close>

datatype pyval =
    PNone
  | PBool bool
  | PInt int
  | PFloat float_constant
  | PStr string
  | PList "pyval list"
  | PDict "(string \<times> pyval) list"

text \<open>
  Exceptions. \<open>ValueError\<close> stands for the decoding errors of \<open>json.loads\<close>,
  \<open>KeyError\<close> and \<open>TypeError\<close> for subscripting and iterating the decoded response,
  \<open>UnknownTypeError\<close> for a name the registry does not hold, and \<open>Raised\<close> for
  whatever the grammar parser, a type constructor or a converter raises (the exception as
  text).
\<close>

datatype error =
    ValueError
  | KeyError string
  | TypeError
  | UnknownTypeError string
  | Raised string

text \<open>\<open>dict\<close> builds a dict from the pairs of a JSON object: a repeated key keeps its
  first position and takes the last value.\<close>

definition dict :: "(string \<times> 'v) list \<Rightarrow> (string \<times> 'v) list" where
  "dict kvs = foldl (\<lambda>d (k, v). AList.update k v d) [] kvs"

primrec json_loads :: "(string \<Rightarrow> pyval) \<Rightarrow> json \<Rightarrow> pyval" where
  "json_loads parse_float JNull = PNone"
| "json_loads parse_float (JBool b) = PBool b"
| "json_loads parse_float (JInt n) = PInt n"
| "json_loads parse_float (JFloat s) = parse_float s"
| "json_loads parse_float (JConstant c) = PFloat c"
| "json_loads parse_float (JString s) = PStr s"
| "json_loads parse_float (JArray xs) = PList (map (json_loads parse_float) xs)"
| "json_loads parse_float (JObject kvs) =
     PDict (dict (map (map_prod id (json_loads parse_float)) kvs))"

text \<open>\<open>obj[key]\<close> with a string key: only a dict accepts it.\<close>

fun getitem :: "pyval \<Rightarrow> string \<Rightarrow> error + pyval" where
  "getitem (PDict d) k = (case map_of d k of None \<Rightarrow> Inl (KeyError k) | Some v \<Rightarrow> Inr v)"
| "getitem _ k = Inl TypeError"

text \<open>\<open>iter(obj)\<close>, as \<open>for\<close> and \<open>zip\<close> call it: a list gives its elements, a string
  its characters, a dict its keys; nothing else is iterable.\<close>

fun py_iter :: "pyval \<Rightarrow> error + pyval list" where
  "py_iter (PList xs) = Inr xs"
| "py_iter (PStr s) = Inr (map (\<lambda>c. PStr [c]) s)"
| "py_iter (PDict d) = Inr (map (\<lambda>(k, v). PStr k) d)"
| "py_iter _ = Inl TypeError"

section \<open>Type declarations: tree, registry, \<open>TypeTransformer\<close>, \<open>parse_type\<close>\<close>

text \<open>
  The tree the grammar parser returns, in the shape the two callbacks of
  \<open>TypeTransformer\<close> take it: \<open>simple_type(name, *params)\<close> and
  \<open>composite_type(name, *types)\<close>.
\<close>

datatype param = Int_param int | Str_param string | Enum_param string int

datatype type_tree =
    Simple_type string "param list"
  | Composite_type string "type_tree list"

text \<open>A resolved type object; the decoder uses its \<open>from_json\<close> method only.\<close>

datatype 'n type_obj = Type_obj (from_json: "pyval \<Rightarrow> error + 'n")

type_synonym 'n constructor = "'n type_obj list \<Rightarrow> error + 'n type_obj"

type_synonym 'n TypeRegistry = "string \<rightharpoonup> 'n constructor"

text \<open>
  Modelled from the spec: \<open>TypeRegistry.__getitem__\<close> (module \<open>types\<close>) is not among the
  sources. Resolution "fails with an unknown type error when the leading identifier has no
  registered constructor".
\<close>

definition lookup :: "'n TypeRegistry \<Rightarrow> string \<Rightarrow> error + 'n constructor" where
  "lookup types name =
     (case types name of None \<Rightarrow> Inl (UnknownTypeError name) | Some ctor \<Rightarrow> Inr ctor)"

definition start :: "'a \<Rightarrow> 'a" where
  "start type' = type'"

definition composite_type ::
  "'n TypeRegistry \<Rightarrow> string \<Rightarrow> 'n type_obj list \<Rightarrow> error + 'n type_obj" where
  "composite_type types name objs =
     (case lookup types name of Inl e \<Rightarrow> Inl e | Inr ctor \<Rightarrow> ctor objs)"

definition simple_type ::
  "'n TypeRegistry \<Rightarrow> string \<Rightarrow> param list \<Rightarrow> error + 'n type_obj" where
  "simple_type types name params =
     (case lookup types name of Inl e \<Rightarrow> Inl e | Inr ctor \<Rightarrow> ctor [])"

text \<open>\<open>Transformer.transform\<close> works bottom-up: the children of a node are transformed
  first, left to right, and then the node's callback runs on the results.\<close>

fun transform :: "'n TypeRegistry \<Rightarrow> type_tree \<Rightarrow> error + 'n type_obj"
  and transform_children ::
    "'n TypeRegistry \<Rightarrow> type_tree list \<Rightarrow> error + 'n type_obj list" where
  "transform types (Simple_type name params) = simple_type types name params"
| "transform types (Composite_type name ts) =
     (case transform_children types ts of
        Inl e \<Rightarrow> Inl e
      | Inr objs \<Rightarrow> composite_type types name objs)"
| "transform_children types [] = Inr []"
| "transform_children types (t # ts) =
     (case transform types t of
        Inl e \<Rightarrow> Inl e
      | Inr obj \<Rightarrow>
          (case transform_children types ts of
             Inl e \<Rightarrow> Inl e
           | Inr objs \<Rightarrow> Inr (obj # objs)))"

text \<open>The two parameters: \<open>type_parser.parse\<close>, the module-level parser built from the
  grammar file (which is not among the sources), applied to whatever \<open>column['type']\<close>
  holds; and the text grammar of \<open>json.loads\<close>, \<open>None\<close> when the body does not decode.\<close>

record globals =
  type_parser :: "pyval \<Rightarrow> error + type_tree"
  json_scanner :: "bytes \<Rightarrow> json option"

definition parse_type ::
  "globals \<Rightarrow> 'n TypeRegistry \<Rightarrow> pyval \<Rightarrow> error + 'n type_obj" where
  "parse_type g types type_str =
     (case type_parser g type_str of
        Inl e \<Rightarrow> Inl e
      | Inr tree \<Rightarrow> start (transform types tree))"

section \<open>The response decoder \<open>parse_json_compact\<close>\<close>

text \<open>
  \<open>Record(names=..., values=...)\<close>: the class is not among the sources, so a Record is
  what the decoder passes to it, the list of names and the list of values. Column names are
  whatever \<open>column['name']\<close> holds.
\<close>

datatype 'n Record = Record (record_names: "pyval list") (record_values: "'n list")

text \<open>
  The calls the decoder makes, logged in the order the source makes them: reading the body,
  \<open>json.loads\<close>, \<open>parse_type\<close> on a column's type, and a converter on a value (with the
  position of the value in \<open>zip(converters, row)\<close>). An event is logged when the call is
  made, whether it returns or raises.
\<close>

datatype event =
    Read_body bytes
  | Json_loads
  | Parse_type pyval
  | From_json nat pyval

text \<open>\<open>await content.read()\<close>: everything up to the end of the stream, whose chunks are
  \<open>content\<close>.\<close>

definition read :: "bytes list \<Rightarrow> bytes" where
  "read content = concat content"

text \<open>The first loop: one iteration per column, in order; the first exception ends it.\<close>

fun columns ::
  "globals \<Rightarrow> 'n TypeRegistry \<Rightarrow> pyval list \<Rightarrow>
     event list \<times> (error + pyval list \<times> (pyval \<Rightarrow> error + 'n) list)" where
  "columns g types [] = ([], Inr ([], []))"
| "columns g types (column # rest) =
     (case getitem column ''name'' of
        Inl e \<Rightarrow> ([], Inl e)
      | Inr name \<Rightarrow>
          (case getitem column ''type'' of
             Inl e \<Rightarrow> ([], Inl e)
           | Inr type_str \<Rightarrow>
               (case parse_type g types type_str of
                  Inl e \<Rightarrow> ([Parse_type type_str], Inl e)
                | Inr type_obj \<Rightarrow>
                    (case columns g types rest of
                       (tr, Inl e) \<Rightarrow> (Parse_type type_str # tr, Inl e)
                     | (tr, Inr (names, converters)) \<Rightarrow>
                         (Parse_type type_str # tr,
                          Inr (name # names, from_json type_obj # converters))))))"

text \<open>The list comprehension over \<open>zip(converters, row)\<close>: it stops at the shorter of
  the two and at the first converter that raises; \<open>j\<close> counts the position.\<close>

fun convert ::
  "nat \<Rightarrow> (pyval \<Rightarrow> error + 'n) list \<Rightarrow> pyval list \<Rightarrow> event list \<times> (error + 'n list)" where
  "convert j (converter # converters) (v # vs) =
     (case converter v of
        Inl e \<Rightarrow> ([From_json j v], Inl e)
      | Inr x \<Rightarrow>
          (case convert (Suc j) converters vs of
             (tr, Inl e) \<Rightarrow> (From_json j v # tr, Inl e)
           | (tr, Inr xs) \<Rightarrow> (From_json j v # tr, Inr (x # xs))))"
| "convert j _ _ = ([], Inr [])"

text \<open>The body of the second loop, up to the \<open>yield\<close>.\<close>

definition loop_body ::
  "pyval list \<Rightarrow> (pyval \<Rightarrow> error + 'n) list \<Rightarrow> pyval \<Rightarrow> event list \<times> (error + 'n Record)" where
  "loop_body names converters row =
     (case py_iter row of
        Inl e \<Rightarrow> ([], Inl e)
      | Inr vs \<Rightarrow>
          (case convert 0 converters vs of
             (tr, Inl e) \<Rightarrow> (tr, Inl e)
           | (tr, Inr xs) \<Rightarrow> (tr, Inr (Record names xs))))"

text \<open>
  The asynchronous generator. Calling \<open>parse_json_compact\<close> runs nothing: it returns a
  generator that holds its arguments (\<open>Created\<close>). Each request for the next item
  (\<open>anext\<close>) runs the body up to the next \<open>yield\<close>, where the generator is suspended with
  its local variables and the rows not yet visited, or to its end or an exception, after
  which it is finished.
\<close>

datatype 'n generator =
    Created "'n TypeRegistry" "bytes list"
  | Suspended "pyval list" "(pyval \<Rightarrow> error + 'n) list" "pyval list"
  | Finished

datatype 'n outcome =
    Yield "'n Record"
  | Raise "error"
  | StopAsyncIteration

text \<open>Everything before the second loop: from \<open>content.read()\<close> to
  \<open>iter(response['data'])\<close>.\<close>

definition prologue ::
  "globals \<Rightarrow> 'n TypeRegistry \<Rightarrow> bytes list \<Rightarrow>
     event list \<times> (error + pyval list \<times> (pyval \<Rightarrow> error + 'n) list \<times> pyval list)" where
  "prologue g types content =
     (let body = read content in
      case json_scanner g body of
        None \<Rightarrow> ([Read_body body, Json_loads], Inl ValueError)
      | Some doc \<Rightarrow>
          (let response = json_loads PStr doc in
           case getitem response ''meta'' of
             Inl e \<Rightarrow> ([Read_body body, Json_loads], Inl e)
           | Inr meta \<Rightarrow>
               (case py_iter meta of
                  Inl e \<Rightarrow> ([Read_body body, Json_loads], Inl e)
                | Inr cols \<Rightarrow>
                    (case columns g types cols of
                       (tr, Inl e) \<Rightarrow> (Read_body body # Json_loads # tr, Inl e)
                     | (tr, Inr (names, converters)) \<Rightarrow>
                         (case getitem response ''data'' of
                            Inl e \<Rightarrow> (Read_body body # Json_loads # tr, Inl e)
                          | Inr data \<Rightarrow>
                              (case py_iter data of
                                 Inl e \<Rightarrow> (Read_body body # Json_loads # tr, Inl e)
                               | Inr rows \<Rightarrow>
                                   (Read_body body # Json_loads # tr,
                                    Inr (names, converters, rows))))))))"

text \<open>The second loop from the rows not yet visited.\<close>

fun rows_loop ::
  "pyval list \<Rightarrow> (pyval \<Rightarrow> error + 'n) list \<Rightarrow> pyval list \<Rightarrow>
     event list \<times> 'n outcome \<times> 'n generator" where
  "rows_loop names converters [] = ([], StopAsyncIteration, Finished)"
| "rows_loop names converters (row # rest) =
     (case loop_body names converters row of
        (tr, Inl e) \<Rightarrow> (tr, Raise e, Finished)
      | (tr, Inr r) \<Rightarrow> (tr, Yield r, Suspended names converters rest))"

fun anext ::
  "globals \<Rightarrow> 'n generator \<Rightarrow>
     event list \<times> 'n outcome \<times> 'n generator" where
  "anext g (Created types content) =
     (case prologue g types content of
        (tr, Inl e) \<Rightarrow> (tr, Raise e, Finished)
      | (tr, Inr (names, converters, rows)) \<Rightarrow>
          (case rows_loop names converters rows of
             (tr', out, gen) \<Rightarrow> (tr @ tr', out, gen)))"
| "anext g (Suspended names converters rows) = rows_loop names converters rows"
| "anext g Finished = ([], StopAsyncIteration, Finished)"

definition parse_json_compact ::
  "'n TypeRegistry \<Rightarrow> bytes list \<Rightarrow> 'n generator" where
  "parse_json_compact types content = Created types content"

text \<open>A consumer that asks for the next item \<open>n\<close> times: what each request did and gave,
  and the generator left behind.\<close>

fun anexts ::
  "globals \<Rightarrow> nat \<Rightarrow> 'n generator \<Rightarrow>
     (event list \<times> 'n outcome) list \<times> 'n generator" where
  "anexts g 0 gen = ([], gen)"
| "anexts g (Suc n) gen =
     (case anext g gen of
        (tr, out, gen') \<Rightarrow>
          (case anexts g n gen' of
             (rs, gen'') \<Rightarrow> ((tr, out) # rs, gen'')))"

text \<open>The run as one sequence: the calls of each request, then what the request gave.\<close>

datatype 'n entry = Call event | Gave "'n outcome"

definition log :: "(event list \<times> 'n outcome) list \<Rightarrow> 'n entry list" where
  "log rs = concat (map (\<lambda>(tr, out). map Call tr @ [Gave out]) rs)"

section \<open>Vocabulary of the properties\<close>

text \<open>A position in a document: an index into an array, a key into an object. In an object
  with a repeated key the position is the last pair, the one \<open>json.loads\<close> keeps.\<close>

datatype step = Index nat | Key string

fun json_child :: "json \<Rightarrow> step \<Rightarrow> json option" where
  "json_child (JArray xs) (Index i) = (if i < length xs then Some (xs ! i) else None)"
| "json_child (JObject kvs) (Key k) = map_of (rev kvs) k"
| "json_child _ _ = None"

fun json_at :: "json \<Rightarrow> step list \<Rightarrow> json option" where
  "json_at j [] = Some j"
| "json_at j (s # p) = (case json_child j s of None \<Rightarrow> None | Some c \<Rightarrow> json_at c p)"

fun py_child :: "pyval \<Rightarrow> step \<Rightarrow> pyval option" where
  "py_child (PList xs) (Index i) = (if i < length xs then Some (xs ! i) else None)"
| "py_child (PDict d) (Key k) = map_of d k"
| "py_child _ _ = None"

fun py_at :: "pyval \<Rightarrow> step list \<Rightarrow> pyval option" where
  "py_at v [] = Some v"
| "py_at v (s # p) = (case py_child v s of None \<Rightarrow> None | Some c \<Rightarrow> py_at c p)"



section \<open>A small registry and some responses\<close>

text \<open>
  The registry is an argument of the decoder, and the grammar parser and the scanner are
  parameters here. To run the definitions on concrete inputs: a registry of five types with
  Python objects as native values (\<open>UInt8\<close> checks the range, \<open>Nullable\<close> and \<open>Array\<close>
  take one type, the others none, and a constructor given the wrong number of arguments
  raises), a grammar parser that knows five declarations, and a scanner that knows the five
  bodies below.
\<close>

definition UInt8 :: "pyval type_obj" where
  "UInt8 = Type_obj (\<lambda>v. case v of
       PInt n \<Rightarrow> if 0 \<le> n \<and> n < 256 then Inr (PInt n) else Inl (Raised ''DecodeValueError'')
     | _ \<Rightarrow> Inl (Raised ''DecodeValueError''))"

definition String :: "pyval type_obj" where
  "String = Type_obj (\<lambda>v. case v of
       PStr s \<Rightarrow> Inr (PStr s)
     | _ \<Rightarrow> Inl (Raised ''DecodeValueError''))"

definition Decimal :: "pyval type_obj" where
  "Decimal = Type_obj (\<lambda>v. case v of
       PStr s \<Rightarrow> Inr (PStr s)
     | PInt n \<Rightarrow> Inr (PInt n)
     | _ \<Rightarrow> Inl (Raised ''DecodeValueError''))"

definition Nullable :: "pyval type_obj \<Rightarrow> pyval type_obj" where
  "Nullable t = Type_obj (\<lambda>v. case v of PNone \<Rightarrow> Inr PNone | _ \<Rightarrow> from_json t v)"

fun from_json_all :: "(pyval \<Rightarrow> error + 'n) \<Rightarrow> pyval list \<Rightarrow> error + 'n list" where
  "from_json_all f [] = Inr []"
| "from_json_all f (v # vs) =
     (case f v of
        Inl e \<Rightarrow> Inl e
      | Inr x \<Rightarrow> (case from_json_all f vs of Inl e \<Rightarrow> Inl e | Inr xs \<Rightarrow> Inr (x # xs)))"

definition Array :: "pyval type_obj \<Rightarrow> pyval type_obj" where
  "Array t = Type_obj (\<lambda>v. case v of
       PList vs \<Rightarrow> (case from_json_all (from_json t) vs of Inl e \<Rightarrow> Inl e | Inr xs \<Rightarrow> Inr (PList xs))
     | _ \<Rightarrow> Inl (Raised ''DecodeValueError''))"

definition nullary :: "'n type_obj \<Rightarrow> 'n constructor" where
  "nullary t objs = (case objs of [] \<Rightarrow> Inr t | _ \<Rightarrow> Inl (Raised ''InvalidTypeArgumentsError''))"

definition unary :: "('n type_obj \<Rightarrow> 'n type_obj) \<Rightarrow> 'n constructor" where
  "unary f objs = (case objs of [t] \<Rightarrow> Inr (f t) | _ \<Rightarrow> Inl (Raised ''InvalidTypeArgumentsError''))"

definition ex_types :: "pyval TypeRegistry" where
  "ex_types = map_of
     [(''UInt8'', nullary UInt8), (''String'', nullary String), (''Decimal'', nullary Decimal),
      (''Nullable'', unary Nullable), (''Array'', unary Array)]"

definition ex_trees :: "(string \<times> type_tree) list" where
  "ex_trees =
     [(''UInt8'', Simple_type ''UInt8'' []),
      (''Nullable(String)'', Composite_type ''Nullable'' [Simple_type ''String'' []]),
      (''Array(Decimal(9, 2))'',
         Composite_type ''Array'' [Simple_type ''Decimal'' [Int_param 9, Int_param 2]]),
      (''Nullable(Nope)'', Composite_type ''Nullable'' [Simple_type ''Nope'' []]),
      (''Nope(UInt8(UInt8))'',
         Composite_type ''Nope'' [Composite_type ''UInt8'' [Simple_type ''UInt8'' []]])]"

definition ex_type_parser :: "pyval \<Rightarrow> error + type_tree" where
  "ex_type_parser type_str =
     (case type_str of
        PStr s \<Rightarrow> (case map_of ex_trees s of
                     None \<Rightarrow> Inl (Raised ''UnexpectedInput'')
                   | Some tree \<Rightarrow> Inr tree)
      | _ \<Rightarrow> Inl TypeError)"

definition ex_column :: "string \<Rightarrow> string \<Rightarrow> json" where
  "ex_column name type_str = JObject [(''name'', JString name), (''type'', JString type_str)]"

definition ex_response :: "json list \<Rightarrow> json list list \<Rightarrow> json" where
  "ex_response meta data = JObject [(''meta'', JArray meta), (''data'', JArray (map JArray data))]"

definition content_tags :: "bytes list" where
  \<open>content_tags =
     [''{"meta":[{"name":"id","type":"UInt8"},{"name":"tag","type":"Nullable(String)"}],'',
      ''"data":[[1,"x"],[2,null]]}'']\<close>

definition doc_tags :: json where
  "doc_tags = ex_response [ex_column ''id'' ''UInt8'', ex_column ''tag'' ''Nullable(String)'']
     [[JInt 1, JString ''x''], [JInt 2, JNull]]"

definition content_range :: "bytes list" where
  \<open>content_range = [''{"meta":[{"name":"n","type":"UInt8"}],"data":[[300]]}'']\<close>

definition doc_range :: json where
  "doc_range = ex_response [ex_column ''n'' ''UInt8''] [[JInt 300]]"

definition content_late :: "bytes list" where
  \<open>content_late =
     [''{"meta":[{"name":"id","type":"UInt8"},{"name":"m","type":"UInt8"}],'',
      ''"data":[[1,2],[3,300],[4,5]]}'']\<close>

definition doc_late :: json where
  "doc_late = ex_response [ex_column ''id'' ''UInt8'', ex_column ''m'' ''UInt8'']
     [[JInt 1, JInt 2], [JInt 3, JInt 300], [JInt 4, JInt 5]]"

definition content_amount :: "bytes list" where
  \<open>content_amount =
     [''{"meta":[{"name":"amounts","type":"Array(Decimal(9, 2))"}],"data":[[[1.23,4.50]]]}'']\<close>

definition doc_amount :: json where
  "doc_amount = ex_response [ex_column ''amounts'' ''Array(Decimal(9, 2))'']
     [[JArray [JFloat ''1.23'', JFloat ''4.50'']]]"

definition content_nope :: "bytes list" where
  \<open>content_nope = [''{"meta":[{"name":"a","type":"Nope(UInt8(UInt8))"}],"data":[[1]]}'']\<close>

definition doc_nope :: json where
  "doc_nope = ex_response [ex_column ''a'' ''Nope(UInt8(UInt8))''] [[JInt 1]]"

definition ex_json_scanner :: "bytes \<Rightarrow> json option" where
  "ex_json_scanner body =
     map_of
       [(read content_tags, doc_tags), (read content_range, doc_range),
        (read content_late, doc_late), (read content_amount, doc_amount),
        (read content_nope, doc_nope)]
       body"

definition ex_globals :: globals where
  "ex_globals = \<lparr>type_parser = ex_type_parser, json_scanner = ex_json_scanner\<rparr>"

section \<open>Facts about the loops\<close>

lemma convert_Inr:
  "convert j cs vs = (tr, Inr xs) \<Longrightarrow>
     length xs = min (length cs) (length vs) \<and>
     list_all2 (\<lambda>x (c, v). c v = Inr x) xs (zip cs vs) \<and>
     tr = map (\<lambda>(i, v). From_json i v) (enumerate j (take (length cs) vs))"
proof (induction j cs vs arbitrary: tr xs rule: convert.induct)
  case (1 j c cs v vs)
  from 1(2) obtain x tr' xs' where c: "c v = Inr x"
    and r: "convert (Suc j) cs vs = (tr', Inr xs')"
    and eq: "tr = From_json j v # tr'" "xs = x # xs'"
    by (auto split: sum.splits prod.splits)
  from 1(1)[OF c r] show ?case using c eq by simp
qed simp_all


lemma anexts_Finished:
  "anexts g n Finished = (replicate n ([], StopAsyncIteration), Finished)"
  by (induction n) simp_all

lemma anexts_add:
  "anexts g (m + n) gen =
     (case anexts g m gen of
        (rs, gen') \<Rightarrow> (case anexts g n gen' of (rs', gen'') \<Rightarrow> (rs @ rs', gen'')))"
  by (induction m arbitrary: gen) (auto split: prod.splits)

lemma anexts_seen:
  "list_all2 (\<lambda>row (tr, r). loop_body names converters row = (tr, Inr r)) seen steps \<Longrightarrow>
   anexts g (length seen) (Suspended names converters (seen @ unseen)) =
     (map (\<lambda>(tr, r). (tr, Yield r)) steps, Suspended names converters unseen)"
  by (induction seen steps rule: list_all2_induct) auto


lemma convert_events:
  "ev \<in> set (fst (convert j cs vs)) \<Longrightarrow>
     \<exists>i. i < length cs \<and> i < length vs \<and> ev = From_json (j + i) (vs ! i)"
proof (induction j cs vs rule: convert.induct)
  case (1 j c cs v vs)
  show ?case
  proof (cases "ev = From_json j v")
    case True
    then show ?thesis by (intro exI[of _ 0]) simp
  next
    case False
    with 1(2) obtain x where x: "c v = Inr x" and ev: "ev \<in> set (fst (convert (Suc j) cs vs))"
      by (auto split: sum.splits prod.splits)
    from 1(1)[OF x ev] obtain i where "i < length cs" "i < length vs"
      "ev = From_json (Suc j + i) (vs ! i)" by blast
    then show ?thesis by (intro exI[of _ "Suc i"]) simp
  qed
qed simp_all

lemma loop_body_events:
  "ev \<in> set (fst (loop_body names converters row)) \<Longrightarrow>
     \<exists>vs i. py_iter row = Inr vs \<and> i < length converters \<and> i < length vs \<and>
            ev = From_json i (vs ! i)"
proof (cases "py_iter row")
  case (Inl e)
  assume "ev \<in> set (fst (loop_body names converters row))"
  with Inl show ?thesis by (simp add: loop_body_def)
next
  case (Inr vs)
  assume "ev \<in> set (fst (loop_body names converters row))"
  with Inr have "ev \<in> set (fst (convert 0 converters vs))"
    by (auto simp: loop_body_def split: prod.splits sum.splits)
  from convert_events[OF this] Inr show ?thesis by auto
qed

lemma loop_body_Inr:
  "loop_body names converters row = (tr, Inr r) \<Longrightarrow>
     \<exists>vs. py_iter row = Inr vs \<and> record_names r = names \<and>
       length (record_values r) = min (length converters) (length vs) \<and>
       list_all2 (\<lambda>x (c, v). c v = Inr x) (record_values r) (zip converters vs) \<and>
       tr = map (\<lambda>(i, v). From_json i v) (enumerate 0 (take (length converters) vs))"
proof -
  assume a: "loop_body names converters row = (tr, Inr r)"
  then obtain vs where vs: "py_iter row = Inr vs"
    by (cases "py_iter row") (auto simp: loop_body_def)
  with a obtain xs where xs: "convert 0 converters vs = (tr, Inr xs)" and r: "r = Record names xs"
    by (auto simp: loop_body_def split: prod.splits sum.splits)
  from convert_Inr[OF xs] vs r show ?thesis by simp
qed

lemma length_anexts: "length (fst (anexts g n gen)) = n"
proof (induction n arbitrary: gen)
  case 0
  then show ?case by simp
next
  case (Suc n)
  obtain tr out gen' where a: "anext g gen = (tr, out, gen')"
    by (cases "anext g gen") auto
  obtain rs gen'' where r: "anexts g n gen' = (rs, gen'')"
    by (cases "anexts g n gen'")
  from Suc[of gen'] r have "length rs = n" by simp
  with a r show ?case by simp
qed

lemma anexts_Suspended_nth:
  "anexts g n (Suspended names converters rows) = (results, gen) \<Longrightarrow>
   i < n \<Longrightarrow> fst (results ! i) \<noteq> [] \<Longrightarrow>
     i < length rows \<and> fst (results ! i) = fst (loop_body names converters (rows ! i))"
proof (induction n arbitrary: rows results i gen)
  case 0
  then show ?case by simp
next
  case (Suc n)
  show ?case
  proof (cases rows)
    case Nil
    with Suc.prems show ?thesis
      by (cases i) (auto simp: anexts_Finished)
  next
    case (Cons row rest)
    obtain tr res where lb: "loop_body names converters row = (tr, res)"
      by (cases "loop_body names converters row")
    show ?thesis
    proof (cases res)
      case (Inl e)
      with Suc.prems Cons lb show ?thesis
        by (cases i) (auto simp: anexts_Finished)
    next
      case (Inr r)
      obtain rs gen' where rest: "anexts g n (Suspended names converters rest) = (rs, gen')"
        by (cases "anexts g n (Suspended names converters rest)")
      with Suc.prems Cons lb Inr have res: "results = (tr, Yield r) # rs" by simp
      show ?thesis
      proof (cases i)
        case 0
        with res lb Cons show ?thesis by simp
      next
        case (Suc i')
        with Suc.prems res have "i' < n" "fst (rs ! i') \<noteq> []" by auto
        from Suc.IH[OF rest this] Suc res Cons show ?thesis by simp
      qed
    qed
  qed
qed

lemma anexts_Suspended_Yield:
  "anexts g n (Suspended names converters rows) = (results, gen) \<Longrightarrow>
   (tr, Yield r) \<in> set results \<Longrightarrow>
     \<exists>row\<in>set rows. loop_body names converters row = (tr, Inr r)"
proof (induction n arbitrary: rows results gen)
  case 0
  then show ?case by simp
next
  case (Suc n)
  show ?case
  proof (cases rows)
    case Nil
    with Suc.prems show ?thesis by (auto simp: anexts_Finished)
  next
    case (Cons row rest)
    obtain tr' res where lb: "loop_body names converters row = (tr', res)"
      by (cases "loop_body names converters row")
    show ?thesis
    proof (cases res)
      case (Inl e)
      with Suc.prems Cons lb show ?thesis by (auto simp: anexts_Finished)
    next
      case (Inr r')
      obtain rs gen' where rest: "anexts g n (Suspended names converters rest) = (rs, gen')"
        by (cases "anexts g n (Suspended names converters rest)")
      with Suc.prems Cons lb Inr have "(tr, Yield r) = (tr', Yield r') \<or> (tr, Yield r) \<in> set rs"
        by auto
      then show ?thesis
      proof
        assume "(tr, Yield r) = (tr', Yield r')"
        with lb Inr Cons show ?thesis by simp
      next
        assume "(tr, Yield r) \<in> set rs"
        from Suc.IH[OF rest this] Cons show ?thesis by auto
      qed
    qed
  qed
qed

lemma anexts_Suspended_events:
  "anexts g n (Suspended names converters rows) = (results, gen) \<Longrightarrow>
   (tr, out) \<in> set results \<Longrightarrow> ev \<in> set tr \<Longrightarrow> \<exists>j v. ev = From_json j v"
proof -
  assume a: "anexts g n (Suspended names converters rows) = (results, gen)"
    and m: "(tr, out) \<in> set results" and ev: "ev \<in> set tr"
  from m obtain i where i: "i < length results" "results ! i = (tr, out)"
    by (auto simp: in_set_conv_nth)
  from length_anexts[of g n "Suspended names converters rows"] a
  have "length results = n" by simp
  with i ev have "i < n" "fst (results ! i) \<noteq> []" by auto
  from anexts_Suspended_nth[OF a this] i ev
  have "ev \<in> set (fst (loop_body names converters (rows ! i)))" by simp
  from loop_body_events[OF this] show ?thesis by blast
qed

lemma anexts_Created_Inl:
  "prologue g types content = (tr0, Inl e) \<Longrightarrow>
   anexts g (Suc n) (Created types content) =
     ((tr0, Raise e) # replicate n ([], StopAsyncIteration), Finished)"
  by (simp add: anexts_Finished)

lemma anexts_Created_Inr:
  "prologue g types content = (tr0, Inr (names, converters, rows)) \<Longrightarrow>
   anexts g (Suc n) (Created types content) =
     (case anexts g (Suc n) (Suspended names converters rows) of
        (rs, gen) \<Rightarrow> ((tr0 @ fst (hd rs), snd (hd rs)) # tl rs, gen))"
  by (simp split: prod.splits)

lemma log_Created_Inr:
  "prologue g types content = (tr0, Inr (names, converters, rows)) \<Longrightarrow>
   log (fst (anexts g (Suc n) (Created types content))) =
     map Call tr0 @ log (fst (anexts g (Suc n) (Suspended names converters rows)))"
  by (simp add: log_def split: prod.splits)

lemma columns_events:
  "ev \<in> set (fst (columns g types cols)) \<Longrightarrow> \<exists>ts. ev = Parse_type ts"
  by (induction cols) (auto split: sum.splits prod.splits)


lemma prologue_Inr:
  assumes a: "prologue g types content = (tr0, Inr (names, converters, rows))"
  shows "\<exists>doc meta cols tr data.
       json_scanner g (read content) = Some doc \<and>
       getitem (json_loads PStr doc) ''meta'' = Inr meta \<and> py_iter meta = Inr cols \<and>
       columns g types cols = (tr, Inr (names, converters)) \<and>
       getitem (json_loads PStr doc) ''data'' = Inr data \<and> py_iter data = Inr rows \<and>
       tr0 = Read_body (read content) # Json_loads # tr"
proof -
  obtain doc where doc: "json_scanner g (read content) = Some doc"
    using a by (cases "json_scanner g (read content)") (simp_all add: prologue_def)
  obtain meta where meta: "getitem (json_loads PStr doc) ''meta'' = Inr meta"
    using a doc by (cases "getitem (json_loads PStr doc) ''meta''") (simp_all add: prologue_def)
  obtain cols where cols: "py_iter meta = Inr cols"
    using a doc meta by (cases "py_iter meta") (simp_all add: prologue_def)
  obtain tr res where c: "columns g types cols = (tr, res)"
    by (cases "columns g types cols")
  obtain names' converters' where res: "res = Inr (names', converters')"
    using a doc meta cols c by (cases res) (auto simp: prologue_def)
  obtain data where data: "getitem (json_loads PStr doc) ''data'' = Inr data"
    using a doc meta cols c res
    by (cases "getitem (json_loads PStr doc) ''data''") (simp_all add: prologue_def)
  obtain rows' where rows: "py_iter data = Inr rows'"
    using a doc meta cols c res data by (cases "py_iter data") (simp_all add: prologue_def)
  from a doc meta cols c res data rows
  have "tr0 = Read_body (read content) # Json_loads # tr" "names' = names"
    "converters' = converters" "rows' = rows"
    by (simp_all add: prologue_def)
  with doc meta cols c res data rows show ?thesis by blast
qed

lemma prologue_events:
  "\<exists>tr. fst (prologue g types content) = Read_body (read content) # Json_loads # tr \<and>
        (\<forall>ev\<in>set tr. \<exists>ts. ev = Parse_type ts)"
proof (cases "json_scanner g (read content)")
  case None
  then show ?thesis by (simp add: prologue_def)
next
  case (Some doc)
  note doc = this
  show ?thesis
  proof (cases "getitem (json_loads PStr doc) ''meta''")
    case (Inl e)
    with doc show ?thesis by (simp add: prologue_def)
  next
    case (Inr meta)
    note meta = this
    show ?thesis
    proof (cases "py_iter meta")
      case (Inl e)
      with doc meta show ?thesis by (simp add: prologue_def)
    next
      case (Inr cols)
      note cols = this
      obtain tr res where c: "columns g types cols = (tr, res)"
        by (cases "columns g types cols")
      have tr: "\<forall>ev\<in>set tr. \<exists>ts. ev = Parse_type ts"
        using columns_events[of _ g types cols] c by simp
      have "fst (prologue g types content) = Read_body (read content) # Json_loads # tr"
      proof (cases res)
        case (Inl e)
        with doc meta cols c show ?thesis by (simp add: prologue_def)
      next
        case (Inr nc)
        obtain names converters where nc: "nc = (names, converters)" by (cases nc)
        show ?thesis
        proof (cases "getitem (json_loads PStr doc) ''data''")
          case (Inl e)
          with doc meta cols c Inr nc show ?thesis by (simp add: prologue_def)
        next
          case (Inr data)
          with doc meta cols c \<open>res = Inr nc\<close> nc show ?thesis
            by (cases "py_iter data") (simp_all add: prologue_def)
        qed
      qed
      with tr show ?thesis by blast
    qed
  qed
qed

lemma list_all2_nth_pairs:
  "list_all2 (\<lambda>x (c, v). c v = Inr x) xs (zip cs vs) \<Longrightarrow> i < length xs \<Longrightarrow>
     (cs ! i) (vs ! i) = Inr (xs ! i)"
  by (auto simp: list_all2_conv_all_nth)

lemma log_append: "log (xs @ ys) = log xs @ log ys"
  by (simp add: log_def)

lemma log_Cons: "log ((tr, out) # rs) = map Call tr @ Gave out # log rs"
  by (simp add: log_def)

lemma log_Nil: "log [] = []"
  by (simp add: log_def)

lemma log_replicate_Stop:
  "log (replicate m ([], StopAsyncIteration)) = replicate m (Gave StopAsyncIteration)"
  by (induction m) (simp_all add: log_Nil log_Cons)

lemma log_steps:
  "log (map (\<lambda>(tr, r). (tr, Yield r)) steps) =
     concat (map (\<lambda>(tr, r). map Call tr @ [Gave (Yield r)]) steps)"
  by (induction steps) (auto simp: log_Nil log_Cons)

lemma log_Call:
  "Call ev \<in> set (log rs) \<Longrightarrow> \<exists>tr out. (tr, out) \<in> set rs \<and> ev \<in> set tr"
proof (induction rs)
  case Nil
  then show ?case by (simp add: log_Nil)
next
  case (Cons a rs)
  obtain tr out where a: "a = (tr, out)" by (cases a)
  from Cons.prems a have "ev \<in> set tr \<or> Call ev \<in> set (log rs)"
    by (auto simp: log_Cons)
  then show ?case
  proof
    assume "ev \<in> set tr"
    with a show ?thesis by auto
  next
    assume "Call ev \<in> set (log rs)"
    from Cons.IH[OF this] show ?thesis by auto
  qed
qed


lemma anexts_fail:
  assumes "list_all2 (\<lambda>row (tr, r). loop_body names converters row = (tr, Inr r)) good steps"
    and "loop_body names converters bad = (trb, Inl e)"
  shows "anexts g (length good + Suc m) (Suspended names converters (good @ bad # rest)) =
     (map (\<lambda>(tr, r). (tr, Yield r)) steps @ (trb, Raise e) # replicate m ([], StopAsyncIteration),
      Finished)"
proof -
  have a: "anexts g (length good) (Suspended names converters (good @ bad # rest)) =
      (map (\<lambda>(tr, r). (tr, Yield r)) steps, Suspended names converters (bad # rest))"
    using anexts_seen[OF assms(1)] .
  have b: "anexts g (Suc m) (Suspended names converters (bad # rest)) =
      ((trb, Raise e) # replicate m ([], StopAsyncIteration), Finished)"
    using assms(2) by (simp add: anexts_Finished)
  show ?thesis
    by (subst anexts_add) (simp only: a b prod.case)
qed

lemma outcomes_Created_Inr:
  "prologue g types content = (tr0, Inr (names, converters, rows)) \<Longrightarrow>
   map snd (fst (anexts g (Suc n) (Created types content))) =
     map snd (fst (anexts g (Suc n) (Suspended names converters rows)))"
  by (simp split: prod.splits)

lemma final_Created_Inr:
  "prologue g types content = (tr0, Inr (names, converters, rows)) \<Longrightarrow>
   snd (anexts g (Suc n) (Created types content)) =
     snd (anexts g (Suc n) (Suspended names converters rows))"
  by (simp split: prod.splits)

lemma all_Parse_type:
  "\<forall>ev\<in>set tr. \<exists>ts. ev = Parse_type ts \<Longrightarrow> \<exists>tss. tr = map Parse_type tss"
proof (induction tr)
  case Nil
  then show ?case by simp
next
  case (Cons ev tr)
  then obtain ts tss where "ev = Parse_type ts" "tr = map Parse_type tss" by auto
  then show ?case by (intro exI[of _ "ts # tss"]) simp
qed

lemma prologue_trace:
  "\<exists>tss. fst (prologue g types content) =
     Read_body (read content) # Json_loads # map Parse_type tss"
  using prologue_events[of g types content] all_Parse_type by metis

lemma convert_fail:
  "k < length cs \<Longrightarrow> k < length vs \<Longrightarrow> (cs ! k) (vs ! k) = Inl e \<Longrightarrow>
   \<forall>i<k. \<exists>x. (cs ! i) (vs ! i) = Inr x \<Longrightarrow>
     convert j cs vs = (map (\<lambda>(i, v). From_json i v) (enumerate j (take (Suc k) vs)), Inl e)"
proof (induction j cs vs arbitrary: k rule: convert.induct)
  case (1 j c cs v vs)
  show ?case
  proof (cases k)
    case 0
    with 1(2-4) show ?thesis by simp
  next
    case (Suc k')
    with 1(5) obtain x where x: "c v = Inr x" by fastforce
    from 1(2-5) Suc have "k' < length cs" "k' < length vs" "(cs ! k') (vs ! k') = Inl e"
      "\<forall>i<k'. \<exists>x. (cs ! i) (vs ! i) = Inr x" by auto
    from 1(1)[OF x this] x Suc show ?thesis by simp
  qed
qed simp_all

lemma loop_body_steps:
  "list_all2 (\<lambda>row (tr, r). loop_body names converters row = (tr, Inr r)) rows steps \<Longrightarrow>
   list_all2 (\<lambda>row (tr, r). \<exists>vs. py_iter row = Inr vs \<and> record_names r = names \<and>
        length (record_values r) = min (length converters) (length vs) \<and>
        list_all2 (\<lambda>x (c, v). c v = Inr x) (record_values r) (zip converters vs) \<and>
        tr = map (\<lambda>(i, v). From_json i v) (enumerate 0 (take (length converters) vs)))
     rows steps"
  by (erule list_all2_mono) (auto dest: loop_body_Inr)







lemma map_of_foldl_update:
  "map_of (foldl (\<lambda>d (k, v). AList.update k v d) d0 kvs) = map_of d0 ++ map_of (rev kvs)"
proof (induction kvs arbitrary: d0)
  case Nil
  then show ?case by simp
next
  case (Cons kv kvs)
  obtain k v where kv: "kv = (k, v)" by (cases kv)
  have "map_of (AList.update k v d0) ++ map_of (rev kvs) =
      map_of d0 ++ (map_of [(k, v)] ++ map_of (rev kvs))"
    by (simp add: update_conv' map_add_upd_left fun_eq_iff map_add_def split: option.splits)
  with Cons[of "AList.update k v d0"] kv show ?case by simp
qed

lemma map_of_dict: "map_of (dict kvs) k = map_of (rev kvs) k"
  by (simp add: dict_def map_of_foldl_update)

lemma map_of_map_prod:
  "map_of (map (map_prod id f) kvs) k = map_option f (map_of kvs k)"
  by (induction kvs) auto

lemma child_loads:
  "py_child (json_loads PStr j) s = map_option (json_loads PStr) (json_child j s)"
proof (cases j)
  case (JArray xs)
  then show ?thesis by (cases s) simp_all
next
  case (JObject kvs)
  then show ?thesis
    by (cases s) (simp_all add: map_of_dict rev_map map_of_map_prod)
qed simp_all

lemma at_loads:
  "py_at (json_loads PStr j) p = map_option (json_loads PStr) (json_at j p)"
proof (induction p arbitrary: j)
  case Nil
  then show ?case by simp
next
  case (Cons s p)
  show ?case
  proof (cases "json_child j s")
    case None
    then show ?thesis by (simp add: child_loads)
  next
    case (Some c)
    with Cons[of c] show ?thesis by (simp add: child_loads)
  qed
qed

lemma py_child_Key: "py_child v (Key k) = Some c \<Longrightarrow> getitem v k = Inr c"
  by (cases v) simp_all

lemma py_child_Index:
  "py_child v (Index i) = Some c \<Longrightarrow> \<exists>xs. py_iter v = Inr xs \<and> i < length xs \<and> c = xs ! i"
  by (cases v) (simp_all split: if_splits)

section \<open>The responses, run\<close>

lemmas ex_defs = ex_globals_def ex_json_scanner_def ex_type_parser_def ex_trees_def ex_types_def
  read_def ex_response_def ex_column_def nullary_def unary_def dict_def
  parse_type_def start_def simple_type_def composite_type_def lookup_def

lemma run_tags:
  "anexts ex_globals 3 (parse_json_compact ex_types content_tags) =
     ([([Read_body (read content_tags), Json_loads, Parse_type (PStr ''UInt8''),
         Parse_type (PStr ''Nullable(String)''), From_json 0 (PInt 1), From_json 1 (PStr ''x'')],
        Yield (Record [PStr ''id'', PStr ''tag''] [PInt 1, PStr ''x''])),
       ([From_json 0 (PInt 2), From_json 1 PNone],
        Yield (Record [PStr ''id'', PStr ''tag''] [PInt 2, PNone])),
       ([], StopAsyncIteration)],
      Finished)"
  by (simp add: numeral_3_eq_3 parse_json_compact_def prologue_def loop_body_def ex_defs
      content_tags_def doc_tags_def UInt8_def Nullable_def String_def)

lemma run_late:
  "anexts ex_globals 4 (parse_json_compact ex_types content_late) =
     ([([Read_body (read content_late), Json_loads, Parse_type (PStr ''UInt8''),
         Parse_type (PStr ''UInt8''), From_json 0 (PInt 1), From_json 1 (PInt 2)],
        Yield (Record [PStr ''id'', PStr ''m''] [PInt 1, PInt 2])),
       ([From_json 0 (PInt 3), From_json 1 (PInt 300)], Raise (Raised ''DecodeValueError'')),
       ([], StopAsyncIteration), ([], StopAsyncIteration)],
      Finished)"
  by (simp add: eval_nat_numeral parse_json_compact_def prologue_def loop_body_def ex_defs
      content_late_def content_tags_def content_range_def doc_late_def UInt8_def)


lemma prologue_late:
  "prologue ex_globals ex_types content_late =
     ([Read_body (read content_late), Json_loads, Parse_type (PStr ''UInt8''),
       Parse_type (PStr ''UInt8'')],
      Inr ([PStr ''id'', PStr ''m''], [from_json UInt8, from_json UInt8],
           [PList [PInt 1, PInt 2], PList [PInt 3, PInt 300], PList [PInt 4, PInt 5]]))"
  by (simp add: prologue_def ex_defs content_late_def content_tags_def content_range_def doc_late_def)

lemma prologue_nope:
  "prologue ex_globals ex_types content_nope =
     ([Read_body (read content_nope), Json_loads, Parse_type (PStr ''Nope(UInt8(UInt8))'')],
      Inl (Raised ''InvalidTypeArgumentsError''))"
  by (simp add: prologue_def ex_defs content_late_def content_tags_def content_range_def
      content_amount_def content_nope_def doc_nope_def)

lemma run_range:
  "anexts ex_globals 2 (parse_json_compact ex_types content_range) =
     ([([Read_body (read content_range), Json_loads, Parse_type (PStr ''UInt8''),
         From_json 0 (PInt 300)],
        Raise (Raised ''DecodeValueError'')),
       ([], StopAsyncIteration)],
      Finished)"
  by (simp add: eval_nat_numeral parse_json_compact_def prologue_def loop_body_def ex_defs
      content_tags_def content_range_def doc_range_def UInt8_def)

lemma from_json_amounts:
  "from_json (Array Decimal) (PList [PStr ''1.23'', PStr ''4.50'']) =
     Inr (PList [PStr ''1.23'', PStr ''4.50''])"
  by (simp add: Array_def Decimal_def)

lemma run_amount:
  "anexts ex_globals 1 (parse_json_compact ex_types content_amount) =
     ([([Read_body (read content_amount), Json_loads, Parse_type (PStr ''Array(Decimal(9, 2))''),
         From_json 0 (PList [PStr ''1.23'', PStr ''4.50''])],
        Yield (Record [PStr ''amounts''] [PList [PStr ''1.23'', PStr ''4.50'']]))],
      Suspended [PStr ''amounts''] [from_json (Array Decimal)] [])"
  by (simp add: parse_json_compact_def prologue_def loop_body_def ex_defs
      content_tags_def content_range_def content_late_def content_amount_def doc_amount_def
      from_json_amounts)

section \<open>The claims\<close>



text \<open>
  C2, as stated, fails on its last part: the error that reaches the consumer says nothing of
  the column or the row. \<open>parse_json_compact\<close> has no handler around the converter call, so
  what the converter raises, from the value alone, passes through unchanged. Below, the value
  300 fails in row 0, column 0 (named n) of one response and in row 1, column 1 (named m) of
  another, and both runs raise the same exception.
\<close>

theorem C2_counterexample:
  "anexts ex_globals 2 (parse_json_compact ex_types content_range) =
     ([([Read_body (read content_range), Json_loads, Parse_type (PStr ''UInt8''),
         From_json 0 (PInt 300)],
        Raise (Raised ''DecodeValueError'')),
       ([], StopAsyncIteration)],
      Finished) \<and>
   anexts ex_globals 4 (parse_json_compact ex_types content_late) =
     ([([Read_body (read content_late), Json_loads, Parse_type (PStr ''UInt8''),
         Parse_type (PStr ''UInt8''), From_json 0 (PInt 1), From_json 1 (PInt 2)],
        Yield (Record [PStr ''id'', PStr ''m''] [PInt 1, PInt 2])),
       ([From_json 0 (PInt 3), From_json 1 (PInt 300)], Raise (Raised ''DecodeValueError'')),
       ([], StopAsyncIteration), ([], StopAsyncIteration)],
      Finished)"
  using run_range run_late by simp

text \<open>
  C2, amended. When the rows before it convert and the value at position \<open>k\<close> of a row is the
  first its converter rejects, the decode aborts there: the values before it in the row were
  converted, no later value of the row and no later row is, the request raises exactly what
  the converter raised (nothing is added to it), no Record is given for the failing row, no
  Record is given afterwards (every later request ends the iteration) and the generator is
  finished.
\<close>

theorem C2_abort_at_failing_value:
  assumes "prologue g types content = (tr0, Inr (names, converters, good @ bad # rest))"
    and "list_all2 (\<lambda>row (tr, r). loop_body names converters row = (tr, Inr r)) good steps"
    and "py_iter bad = Inr vs"
    and "k < length converters" and "k < length vs"
    and "(converters ! k) (vs ! k) = Inl e"
    and "\<forall>i<k. \<exists>x. (converters ! i) (vs ! i) = Inr x"
  shows "log (fst (anexts g (length good + Suc m) (parse_json_compact types content))) =
           map Call tr0 @
           concat (map (\<lambda>(tr, r). map Call tr @ [Gave (Yield r)]) steps) @
           map Call (map (\<lambda>(i, v). From_json i v) (enumerate 0 (take (Suc k) vs))) @
           Gave (Raise e) # replicate m (Gave StopAsyncIteration) \<and>
         snd (anexts g (length good + Suc m) (parse_json_compact types content)) = Finished"
proof -
  let ?trb = "map (\<lambda>(i, v). From_json i v) (enumerate 0 (take (Suc k) vs))"
  have bad: "loop_body names converters bad = (?trb, Inl e)"
    using assms(3) convert_fail[OF assms(4-7), of 0] by (simp add: loop_body_def)
  note run = anexts_fail[OF assms(2) bad, of g m rest]
  have "log (fst (anexts g (Suc (length good + m)) (Created types content))) =
      map Call tr0 @ log (fst (anexts g (length good + Suc m)
        (Suspended names converters (good @ bad # rest))))"
    using log_Created_Inr[OF assms(1), of "length good + m"] by simp
  also have "\<dots> = map Call tr0 @
           concat (map (\<lambda>(tr, r). map Call tr @ [Gave (Yield r)]) steps) @
           map Call ?trb @ Gave (Raise e) # replicate m (Gave StopAsyncIteration)"
    by (simp only: run fst_conv log_append log_steps log_Cons log_replicate_Stop)
  finally have l: "log (fst (anexts g (length good + Suc m) (parse_json_compact types content))) =
           map Call tr0 @
           concat (map (\<lambda>(tr, r). map Call tr @ [Gave (Yield r)]) steps) @
           map Call ?trb @ Gave (Raise e) # replicate m (Gave StopAsyncIteration)"
    by (simp add: parse_json_compact_def)
  have "snd (anexts g (Suc (length good + m)) (Created types content)) =
      snd (anexts g (length good + Suc m) (Suspended names converters (good @ bad # rest)))"
    using final_Created_Inr[OF assms(1), of "length good + m"] by simp
  also have "\<dots> = Finished"
    by (simp only: run snd_conv)
  finally have "snd (anexts g (length good + Suc m) (parse_json_compact types content)) = Finished"
    by (simp add: parse_json_compact_def)
  with l show ?thesis by blast
qed

theorem C2_witness:
  "log (fst (anexts ex_globals 3 (parse_json_compact ex_types content_late))) =
     [Call (Read_body (read content_late)), Call Json_loads,
      Call (Parse_type (PStr ''UInt8'')), Call (Parse_type (PStr ''UInt8'')),
      Call (From_json 0 (PInt 1)), Call (From_json 1 (PInt 2)),
      Gave (Yield (Record [PStr ''id'', PStr ''m''] [PInt 1, PInt 2])),
      Call (From_json 0 (PInt 3)), Call (From_json 1 (PInt 300)),
      Gave (Raise (Raised ''DecodeValueError'')), Gave StopAsyncIteration] \<and>
   snd (anexts ex_globals 3 (parse_json_compact ex_types content_late)) = Finished"
  using C2_abort_at_failing_value[of ex_globals ex_types content_late
      "[Read_body (read content_late), Json_loads, Parse_type (PStr ''UInt8''),
        Parse_type (PStr ''UInt8'')]"
      "[PStr ''id'', PStr ''m'']" "[from_json UInt8, from_json UInt8]"
      "[PList [PInt 1, PInt 2]]" "PList [PInt 3, PInt 300]" "[PList [PInt 4, PInt 5]]"
      "[([From_json 0 (PInt 1), From_json 1 (PInt 2)],
         Record [PStr ''id'', PStr ''m''] [PInt 1, PInt 2])]"
      "[PInt 3, PInt 300]" 1 "Raised ''DecodeValueError''" 1]
  by (simp add: prologue_late loop_body_def UInt8_def numeral_3_eq_3 del: anexts.simps)

text \<open>
  C3. A floating-point literal of the payload (a number with a fraction or an exponent)
  reaches the converter as its own text. Whatever converter call a run makes at position
  \<open>j\<close> of row \<open>i\<close>, on a response whose \<open>data\<close> holds the cell at that place, the value
  passed is the cell as \<open>json.loads\<close> builds it with \<open>parse_float=str\<close>, and at every
  place inside the cell where the document has a float literal the value has the string of
  exactly the literal's characters: no float object is made of it before the converter runs.
  (\<open>NaN\<close>, \<open>Infinity\<close> and \<open>-Infinity\<close>, which are not decimal literals and not JSON, do not
  go through \<open>parse_float\<close>.)
\<close>

theorem C3_float_text_reaches_converter:
  assumes "json_scanner g (read content) = Some doc"
    and "json_at doc [Key ''data'', Index i, Index j] = Some cell"
    and "anexts g (Suc i) (parse_json_compact types content) = (results, gen)"
    and "From_json j v \<in> set (fst (results ! i))"
  shows "v = json_loads PStr cell \<and>
         (\<forall>p t. json_at cell p = Some (JFloat t) \<longrightarrow> py_at v p = Some (PStr t))"
proof -
  obtain tr0 res where p: "prologue g types content = (tr0, res)"
    by (cases "prologue g types content")
  from prologue_trace[of g types content] p obtain type_strs where
    tr0: "tr0 = Read_body (read content) # Json_loads # map Parse_type type_strs" by auto
  then have no0: "From_json j v \<notin> set tr0" by auto
  have "\<exists>names converters rows. res = Inr (names, converters, rows)"
  proof (cases res)
    case (Inl e)
    from anexts_Created_Inl[of g types content tr0 e i] p Inl assms(3)
    have "results = (tr0, Raise e) # replicate i ([], StopAsyncIteration)"
      by (simp add: parse_json_compact_def)
    then have "fst (results ! i) = tr0 \<or> fst (results ! i) = []"
      by (cases i) (simp_all del: replicate.simps)
    with assms(4) no0 show ?thesis by auto
  next
    case (Inr ncr)
    then show ?thesis by (cases ncr) auto
  qed
  then obtain names converters rows where res: "res = Inr (names, converters, rows)" by blast
  from prologue_Inr[OF p[unfolded res]] assms(1) obtain data where
    data: "getitem (json_loads PStr doc) ''data'' = Inr data" "py_iter data = Inr rows"
    by auto
  obtain rs gen' where rs: "anexts g (Suc i) (Suspended names converters rows) = (rs, gen')"
    by (cases "anexts g (Suc i) (Suspended names converters rows)")
  from length_anexts[of g "Suc i" "Suspended names converters rows"] rs
  have len: "length rs = Suc i" by simp
  from anexts_Created_Inr[of g types content tr0 names converters rows i] p res rs assms(3)
  have results: "results = (tr0 @ fst (hd rs), snd (hd rs)) # tl rs"
    by (simp add: parse_json_compact_def)
  have ev: "From_json j v \<in> set (fst (rs ! i))"
  proof (cases i)
    case 0
    with assms(4) results no0 len show ?thesis by (cases rs) auto
  next
    case (Suc i')
    with assms(4) results len show ?thesis by (cases rs) auto
  qed
  then have "fst (rs ! i) \<noteq> []" by auto
  from anexts_Suspended_nth[OF rs _ this]
  have i: "i < length rows" and tr: "fst (rs ! i) = fst (loop_body names converters (rows ! i))"
    by simp_all
  from ev tr loop_body_events[of "From_json j v" names converters "rows ! i"]
  obtain vs where vs: "py_iter (rows ! i) = Inr vs" "j < length vs" "v = vs ! j" by auto
  from at_loads[of doc "[Key ''data'', Index i, Index j]"] assms(2)
  have at: "py_at (json_loads PStr doc) [Key ''data'', Index i, Index j] =
      Some (json_loads PStr cell)" by simp
  then obtain d where d: "py_child (json_loads PStr doc) (Key ''data'') = Some d"
    and at1: "py_at d [Index i, Index j] = Some (json_loads PStr cell)"
    by (auto split: option.splits)
  from py_child_Key[OF d] data(1) have "d = data" by simp
  from at1 obtain row where row: "py_child d (Index i) = Some row"
    and at2: "py_child row (Index j) = Some (json_loads PStr cell)"
    by (auto split: option.splits)
  from py_child_Index[OF row] \<open>d = data\<close> data(2) have "row = rows ! i" by auto
  with py_child_Index[OF at2] vs have v: "v = json_loads PStr cell" by auto
  have "py_at v p = Some (PStr t)" if "json_at cell p = Some (JFloat t)" for p t
    using at_loads[of cell p] that v by simp
  with v show ?thesis by blast
qed

theorem C3_witness:
  "json_at doc_amount [Key ''data'', Index 0, Index 0] =
     Some (JArray [JFloat ''1.23'', JFloat ''4.50'']) \<and>
   json_at (JArray [JFloat ''1.23'', JFloat ''4.50'']) [Index 1] = Some (JFloat ''4.50'') \<and>
   From_json 0 (PList [PStr ''1.23'', PStr ''4.50'']) \<in>
     set (fst (fst (anexts ex_globals 1 (parse_json_compact ex_types content_amount)) ! 0)) \<and>
   PList [PStr ''1.23'', PStr ''4.50''] =
     json_loads PStr (JArray [JFloat ''1.23'', JFloat ''4.50'']) \<and>
   py_at (PList [PStr ''1.23'', PStr ''4.50'']) [Index 1] = Some (PStr ''4.50'')"
proof -
  have a: "json_scanner ex_globals (read content_amount) = Some doc_amount"
    by (simp add: ex_defs content_tags_def content_range_def content_late_def
        content_amount_def)
  have b: "json_at doc_amount [Key ''data'', Index 0, Index 0] =
      Some (JArray [JFloat ''1.23'', JFloat ''4.50''])"
    by (simp add: doc_amount_def ex_response_def)
  have c: "From_json 0 (PList [PStr ''1.23'', PStr ''4.50'']) \<in>
      set (fst ([([Read_body (read content_amount), Json_loads,
         Parse_type (PStr ''Array(Decimal(9, 2))''),
         From_json 0 (PList [PStr ''1.23'', PStr ''4.50''])],
        Yield (Record [PStr ''amounts''] [PList [PStr ''1.23'', PStr ''4.50'']]))] ! 0))"
    by simp
  have d: "From_json 0 (PList [PStr ''1.23'', PStr ''4.50'']) \<in>
      set (fst (fst (anexts ex_globals 1 (parse_json_compact ex_types content_amount)) ! 0))"
    by (simp only: run_amount) simp
  from C3_float_text_reaches_converter[OF a b run_amount[unfolded One_nat_def] c] b d
  show ?thesis by simp
qed

text \<open>
  C4. Setup is eager, rows are lazy. When the setup fails (a declaration does not parse, a
  type is unknown, the envelope is malformed), the first request raises, after the read, the
  load and \<open>Parse_type\<close> calls only: no value was converted and no Record given. When it
  succeeds, a consumer that asks \<open>k \<ge> 1\<close> times and gets \<open>k\<close> Records has caused the setup
  calls followed by the conversions of the first \<open>k\<close> rows and nothing else; the generator
  is left suspended holding the later rows untouched, whatever they are (the statement
  puts no condition on \<open>unseen\<close>, so rows there that no converter accepts do no harm).
\<close>

theorem C4_lazy_rows_eager_setup:
  "(prologue g types content = (tr0, Inl e) \<longrightarrow>
      anexts g (Suc n) (parse_json_compact types content) =
        ((tr0, Raise e) # replicate n ([], StopAsyncIteration), Finished) \<and>
      (\<exists>type_strs. tr0 = Read_body (read content) # Json_loads # map Parse_type type_strs)) \<and>
   (prologue g types content = (tr0, Inr (names, converters, seen @ unseen)) \<and> seen \<noteq> [] \<and>
    list_all2 (\<lambda>row (tr, r). loop_body names converters row = (tr, Inr r)) seen steps \<longrightarrow>
      (\<exists>results.
         anexts g (length seen) (parse_json_compact types content) =
           (results, Suspended names converters unseen) \<and>
         log results =
           map Call tr0 @ concat (map (\<lambda>(tr, r). map Call tr @ [Gave (Yield r)]) steps)) \<and>
      (\<exists>type_strs. tr0 = Read_body (read content) # Json_loads # map Parse_type type_strs) \<and>
      list_all2 (\<lambda>row (tr, r). \<exists>vs. py_iter row = Inr vs \<and>
          tr = map (\<lambda>(i, v). From_json i v) (enumerate 0 (take (length converters) vs)))
        seen steps)"
proof (intro conjI impI)
  assume p: "prologue g types content = (tr0, Inl e)"
  from anexts_Created_Inl[OF p]
  show "anexts g (Suc n) (parse_json_compact types content) =
      ((tr0, Raise e) # replicate n ([], StopAsyncIteration), Finished)"
    by (simp only: parse_json_compact_def)
  from p prologue_trace[of g types content]
  show "\<exists>type_strs. tr0 = Read_body (read content) # Json_loads # map Parse_type type_strs"
    by simp
next
  assume a: "prologue g types content = (tr0, Inr (names, converters, seen @ unseen)) \<and>
    seen \<noteq> [] \<and> list_all2 (\<lambda>row (tr, r). loop_body names converters row = (tr, Inr r)) seen steps"
  then have p: "prologue g types content = (tr0, Inr (names, converters, seen @ unseen))"
    and ne: "seen \<noteq> []"
    and st: "list_all2 (\<lambda>row (tr, r). loop_body names converters row = (tr, Inr r)) seen steps"
    by simp_all
  from ne obtain k where k: "length seen = Suc k" by (cases seen) auto
  have s: "anexts g (Suc k) (Suspended names converters (seen @ unseen)) =
      (map (\<lambda>(tr, r). (tr, Yield r)) steps, Suspended names converters unseen)"
    using anexts_seen[OF st, of g unseen] k by simp
  have "snd (anexts g (Suc k) (Created types content)) = Suspended names converters unseen"
    using final_Created_Inr[OF p, of k] s by simp
  moreover have "log (fst (anexts g (Suc k) (Created types content))) =
      map Call tr0 @ concat (map (\<lambda>(tr, r). map Call tr @ [Gave (Yield r)]) steps)"
    using log_Created_Inr[OF p, of k] s by (simp add: log_steps)
  ultimately show "\<exists>results.
         anexts g (length seen) (parse_json_compact types content) =
           (results, Suspended names converters unseen) \<and>
         log results =
           map Call tr0 @ concat (map (\<lambda>(tr, r). map Call tr @ [Gave (Yield r)]) steps)"
    unfolding k parse_json_compact_def
    by (cases "anexts g (Suc k) (Created types content)") simp
  from p prologue_trace[of g types content]
  show "\<exists>type_strs. tr0 = Read_body (read content) # Json_loads # map Parse_type type_strs"
    by simp
  from loop_body_steps[OF st]
  show "list_all2 (\<lambda>row (tr, r). \<exists>vs. py_iter row = Inr vs \<and>
          tr = map (\<lambda>(i, v). From_json i v) (enumerate 0 (take (length converters) vs)))
        seen steps"
    by (rule list_all2_mono) auto
qed

theorem C4_witness:
  "(anexts ex_globals 2 (parse_json_compact ex_types content_nope) =
      ([([Read_body (read content_nope), Json_loads, Parse_type (PStr ''Nope(UInt8(UInt8))'')],
         Raise (Raised ''InvalidTypeArgumentsError'')),
        ([], StopAsyncIteration)], Finished)) \<and>
   (\<exists>results.
      anexts ex_globals 1 (parse_json_compact ex_types content_late) =
        (results, Suspended [PStr ''id'', PStr ''m''] [from_json UInt8, from_json UInt8]
           [PList [PInt 3, PInt 300], PList [PInt 4, PInt 5]]) \<and>
      log results =
        [Call (Read_body (read content_late)), Call Json_loads,
         Call (Parse_type (PStr ''UInt8'')), Call (Parse_type (PStr ''UInt8'')),
         Call (From_json 0 (PInt 1)), Call (From_json 1 (PInt 2)),
         Gave (Yield (Record [PStr ''id'', PStr ''m''] [PInt 1, PInt 2]))])"
  using
    C4_lazy_rows_eager_setup[of ex_globals ex_types content_nope
      "[Read_body (read content_nope), Json_loads, Parse_type (PStr ''Nope(UInt8(UInt8))'')]"
      "Raised ''InvalidTypeArgumentsError''" 1 "[]" "[]" "[]" "[]" "[]"]
    C4_lazy_rows_eager_setup[of ex_globals ex_types content_late
      "[Read_body (read content_late), Json_loads, Parse_type (PStr ''UInt8''),
        Parse_type (PStr ''UInt8'')]"
      "Raised ''InvalidTypeArgumentsError''" 1
      "[PStr ''id'', PStr ''m'']" "[from_json UInt8, from_json UInt8]"
      "[PList [PInt 1, PInt 2]]" "[PList [PInt 3, PInt 300], PList [PInt 4, PInt 5]]"
      "[([From_json 0 (PInt 1), From_json 1 (PInt 2)],
         Record [PStr ''id'', PStr ''m''] [PInt 1, PInt 2])]"]
  by (simp add: prologue_nope prologue_late loop_body_def UInt8_def numeral_2_eq_2
      del: anexts.simps)

text \<open>
  C5. No Record is given before the whole body has been read and loaded. In every run of one
  or more requests, the log starts with the read of the entire body (all chunks of the
  stream, concatenated) and the \<open>json.loads\<close> of it; neither call occurs again later, so
  every Record the run gives stands after both, and nothing is read from the wire between
  Records.
\<close>

theorem C5_body_read_before_first_record:
  assumes "anexts g (Suc n) (parse_json_compact types content) = (results, gen)"
  shows "\<exists>rest. log results = Call (Read_body (concat content)) # Call Json_loads # rest \<and>
           (\<forall>b. Call (Read_body b) \<notin> set rest) \<and> Call Json_loads \<notin> set rest \<and>
           (\<forall>r. Gave (Yield r) \<in> set (log results) \<longrightarrow> Gave (Yield r) \<in> set rest)"
proof -
  obtain tr0 res where p: "prologue g types content = (tr0, res)"
    by (cases "prologue g types content")
  from prologue_trace[of g types content] p obtain type_strs where
    tr0: "tr0 = Read_body (concat content) # Json_loads # map Parse_type type_strs"
    by (auto simp: read_def)
  have "\<exists>later. log results = map Call tr0 @ later \<and>
      (\<forall>b. Call (Read_body b) \<notin> set later) \<and> Call Json_loads \<notin> set later"
  proof (cases res)
    case (Inl e)
    from anexts_Created_Inl[of g types content tr0 e n] p Inl assms
    have "results = (tr0, Raise e) # replicate n ([], StopAsyncIteration)"
      by (simp add: parse_json_compact_def)
    then have "log results = map Call tr0 @ Gave (Raise e) # replicate n (Gave StopAsyncIteration)"
      by (simp add: log_Cons log_replicate_Stop)
    then show ?thesis by auto
  next
    case (Inr ncr)
    obtain names converters rows where ncr: "ncr = (names, converters, rows)" by (cases ncr)
    obtain rs gen' where rs: "anexts g (Suc n) (Suspended names converters rows) = (rs, gen')"
      by (cases "anexts g (Suc n) (Suspended names converters rows)")
    from log_Created_Inr[of g types content tr0 names converters rows n] p Inr ncr rs assms
    have l: "log results = map Call tr0 @ log rs"
      by (simp add: parse_json_compact_def)
    have "\<exists>j v. ev = From_json j v" if "Call ev \<in> set (log rs)" for ev
      using log_Call[OF that] anexts_Suspended_events[OF rs] by blast
    then have "(\<forall>b. Call (Read_body b) \<notin> set (log rs)) \<and> Call Json_loads \<notin> set (log rs)"
      by fastforce
    with l show ?thesis by blast
  qed
  then obtain later where later: "log results = map Call tr0 @ later"
    "\<forall>b. Call (Read_body b) \<notin> set later" "Call Json_loads \<notin> set later" by blast
  let ?rest = "map Call (map Parse_type type_strs) @ later"
  have "log results = Call (Read_body (concat content)) # Call Json_loads # ?rest"
    using later(1) tr0 by simp
  moreover have "\<forall>b. Call (Read_body b) \<notin> set ?rest" "Call Json_loads \<notin> set ?rest"
    using later(2,3) by auto
  moreover have "\<forall>r. Gave (Yield r) \<in> set (log results) \<longrightarrow> Gave (Yield r) \<in> set ?rest"
    using later(1) tr0 by auto
  ultimately show ?thesis by blast
qed

theorem C5_witness:
  "\<exists>rest.
     [Call (Read_body (concat content_tags)), Call Json_loads,
      Call (Parse_type (PStr ''UInt8'')), Call (Parse_type (PStr ''Nullable(String)'')),
      Call (From_json 0 (PInt 1)), Call (From_json 1 (PStr ''x'')),
      Gave (Yield (Record [PStr ''id'', PStr ''tag''] [PInt 1, PStr ''x''])),
      Call (From_json 0 (PInt 2)), Call (From_json 1 PNone),
      Gave (Yield (Record [PStr ''id'', PStr ''tag''] [PInt 2, PNone])),
      Gave StopAsyncIteration] =
       Call (Read_body (concat content_tags)) # Call Json_loads # rest \<and>
     (\<forall>b. Call (Read_body b) \<notin> set rest) \<and> Call Json_loads \<notin> set rest"
  using C5_body_read_before_first_record[of ex_globals 2 ex_types content_tags]
  by (simp add: numeral_3_eq_3[symmetric] run_tags log_def read_def del: anexts.simps)






text \<open>
  C9. A failure on a later row does not take back what was given before. When the rows
  before the failing one convert, the consumer that goes on to the failing row has received
  exactly the Records it would have received had it stopped just before (those of the rows
  before it, in order), then the exception; requests after that end the iteration.
\<close>

theorem C9_yielded_records_stay:
  assumes "prologue g types content = (tr0, Inr (names, converters, good @ bad # rest))"
    and "list_all2 (\<lambda>row (tr, r). loop_body names converters row = (tr, Inr r)) good steps"
    and "loop_body names converters bad = (trb, Inl e)"
  shows "map snd (fst (anexts g (length good) (parse_json_compact types content))) =
           map (\<lambda>(tr, r). Yield r) steps \<and>
         map snd (fst (anexts g (length good + Suc m) (parse_json_compact types content))) =
           map (\<lambda>(tr, r). Yield r) steps @ Raise e # replicate m StopAsyncIteration"
proof
  show "map snd (fst (anexts g (length good) (parse_json_compact types content))) =
           map (\<lambda>(tr, r). Yield r) steps"
  proof (cases "length good")
    case 0
    with assms(2) show ?thesis by simp
  next
    case (Suc k)
    from outcomes_Created_Inr[OF assms(1), of k] anexts_seen[OF assms(2), of g "bad # rest"] Suc
    show ?thesis
      by (simp add: parse_json_compact_def comp_def case_prod_unfold del: anexts.simps)
  qed
  have "map snd (fst (anexts g (Suc (length good + m)) (Created types content))) =
      map snd (fst (anexts g (length good + Suc m)
        (Suspended names converters (good @ bad # rest))))"
    using outcomes_Created_Inr[OF assms(1), of "length good + m"] by simp
  also have "\<dots> = map (\<lambda>(tr, r). Yield r) steps @ Raise e # replicate m StopAsyncIteration"
    by (simp only: anexts_fail[OF assms(2,3)] fst_conv)
      (simp add: comp_def case_prod_unfold)
  finally show "map snd (fst (anexts g (length good + Suc m)
      (parse_json_compact types content))) =
           map (\<lambda>(tr, r). Yield r) steps @ Raise e # replicate m StopAsyncIteration"
    by (simp add: parse_json_compact_def)
qed

theorem C9_witness:
  "map snd (fst (anexts ex_globals 1 (parse_json_compact ex_types content_late))) =
     [Yield (Record [PStr ''id'', PStr ''m''] [PInt 1, PInt 2])] \<and>
   map snd (fst (anexts ex_globals 3 (parse_json_compact ex_types content_late))) =
     [Yield (Record [PStr ''id'', PStr ''m''] [PInt 1, PInt 2]),
      Raise (Raised ''DecodeValueError''), StopAsyncIteration]"
  using C9_yielded_records_stay[of ex_globals ex_types content_late
      "[Read_body (read content_late), Json_loads, Parse_type (PStr ''UInt8''),
        Parse_type (PStr ''UInt8'')]"
      "[PStr ''id'', PStr ''m'']" "[from_json UInt8, from_json UInt8]"
      "[PList [PInt 1, PInt 2]]" "PList [PInt 3, PInt 300]" "[PList [PInt 4, PInt 5]]"
      "[([From_json 0 (PInt 1), From_json 1 (PInt 2)],
         Record [PStr ''id'', PStr ''m''] [PInt 1, PInt 2])]"
      "[From_json 0 (PInt 3), From_json 1 (PInt 300)]" "Raised ''DecodeValueError''" 1]
  by (simp add: prologue_late loop_body_def UInt8_def numeral_3_eq_3 del: anexts.simps)

text \<open>
  C10. Every Record the generator ever yields, in any number of requests on any response,
  was built from a row of the response after each of its paired values had been converted:
  the setup had succeeded, and every value of the Record is what the converter of its
  position returned for the value of the row at that position. No Record holds a raw or
  unconverted value.
\<close>

theorem C10_records_fully_converted:
  assumes "anexts g n (parse_json_compact types content) = (results, gen)"
    and "(tr, Yield r) \<in> set results"
  shows "\<exists>tr0 names converters rows row vs.
           prologue g types content = (tr0, Inr (names, converters, rows)) \<and>
           row \<in> set rows \<and> py_iter row = Inr vs \<and>
           record_names r = names \<and>
           length (record_values r) = min (length converters) (length vs) \<and>
           (\<forall>i<length (record_values r).
              (converters ! i) (vs ! i) = Inr (record_values r ! i))"
proof -
  from assms obtain m where n: "n = Suc m"
    by (cases n) auto
  obtain tr0 res where p: "prologue g types content = (tr0, res)"
    by (cases "prologue g types content")
  show ?thesis
  proof (cases res)
    case (Inl e)
    with assms n p show ?thesis
      by (auto simp: parse_json_compact_def anexts_Finished)
  next
    case (Inr ncr)
    obtain names converters rows where ncr: "ncr = (names, converters, rows)"
      by (cases ncr)
    obtain rs gen' where rs: "anexts g (Suc m) (Suspended names converters rows) = (rs, gen')"
      by (cases "anexts g (Suc m) (Suspended names converters rows)")
    from length_anexts[of g "Suc m" "Suspended names converters rows"] rs
    have ne: "rs \<noteq> []" by auto
    from anexts_Created_Inr[of g types content tr0 names converters rows m] p Inr ncr rs assms(1) n
    have res: "results = (tr0 @ fst (hd rs), snd (hd rs)) # tl rs"
      by (simp add: parse_json_compact_def)
    from assms(2) res ne have "\<exists>tr'. (tr', Yield r) \<in> set rs"
      by (cases rs) auto
    then obtain tr' where "(tr', Yield r) \<in> set rs" ..
    from anexts_Suspended_Yield[OF rs this] obtain row where
      row: "row \<in> set rows" "loop_body names converters row = (tr', Inr r)" by blast
    from loop_body_Inr[OF row(2)] obtain vs where vs: "py_iter row = Inr vs"
      "record_names r = names" "length (record_values r) = min (length converters) (length vs)"
      "list_all2 (\<lambda>x (c, v). c v = Inr x) (record_values r) (zip converters vs)" by blast
    from p Inr ncr row(1) vs(1,2,3) list_all2_nth_pairs[OF vs(4)] show ?thesis by blast
  qed
qed

theorem C10_witness:
  "\<exists>tr0 names converters rows row vs.
     prologue ex_globals ex_types content_tags = (tr0, Inr (names, converters, rows)) \<and>
     row \<in> set rows \<and> py_iter row = Inr vs \<and>
     record_names (Record [PStr ''id'', PStr ''tag''] [PInt 2, PNone]) = names \<and>
     length (record_values (Record [PStr ''id'', PStr ''tag''] [PInt 2, PNone])) =
       min (length converters) (length vs) \<and>
     (\<forall>i<length (record_values (Record [PStr ''id'', PStr ''tag''] [PInt 2, PNone])).
        (converters ! i) (vs ! i) =
          Inr (record_values (Record [PStr ''id'', PStr ''tag''] [PInt 2, PNone]) ! i))"
  by (rule C10_records_fully_converted[OF run_tags,
        of "[From_json 0 (PInt 2), From_json 1 PNone]"]) simp

end
